theory Spec2Isabelle
  imports Main
begin

section \<open>The env loader of goconfig\<close>

text \<open>
  The loader (\<^verbatim>\<open>loader/env\<close>, newest revision: \<^verbatim>\<open>src/unnamed/part_001\<close> with the
  options of \<^verbatim>\<open>src/unnamed/part_003\<close>) seeds the process environment from a list of
  dotenv files and then binds the environment onto a configuration struct. The files
  are read by \<^verbatim>\<open>godotenv.Load\<close> and the struct is bound by
  \<^verbatim>\<open>env.ParseWithOptions\<close>; both are third-party libraries outside the repository,
  so their behaviour enters the model below as a description of the world the loader
  runs in (a file system, a process environment) and as a parameter (the struct parser).
\<close>

subsection \<open>Go errors\<close>

text \<open>Error numbers the operating system reports for a path.\<close>

datatype errno = ENOENT | EACCES | ENOTDIR | EISDIR | EIO

text \<open>
  Go error values. The two sentinels are the package variables of the loader;
  \<open>Errorf p e\<close> is \<^verbatim>\<open>fmt.Errorf(p + "%w", e)\<close>, an error that wraps \<open>e\<close>;
  \<open>PathError op path n\<close> is the \<^verbatim>\<open>*fs.PathError\<close> of package \<^verbatim>\<open>os\<close>;
  \<open>LibError m\<close> is any other error made by a library or by the caller's code,
  known by its message only.
\<close>

datatype go_error =
    ErrEnvFilesNotSpecified
  | ErrSourceNotFound
  | Errorf string go_error
  | PathError string string errno
  | LibError string

fun errno_text :: "errno \<Rightarrow> string" where
  "errno_text ENOENT = ''no such file or directory''"
| "errno_text EACCES = ''permission denied''"
| "errno_text ENOTDIR = ''not a directory''"
| "errno_text EISDIR = ''is a directory''"
| "errno_text EIO = ''input/output error''"

text \<open>The \<^verbatim>\<open>Error()\<close> method: the message of an error.\<close>

fun Error :: "go_error \<Rightarrow> string" where
  "Error ErrEnvFilesNotSpecified = ''env files not specified''"
| "Error ErrSourceNotFound = ''source not found''"
| "Error (Errorf p e) = p @ Error e"
| "Error (PathError op path n) = op @ '' '' @ path @ '': '' @ errno_text n"
| "Error (LibError m) = m"

text \<open>
  \<^verbatim>\<open>errors.Is(err, target)\<close>: \<open>target\<close> is \<open>err\<close> itself or is found by unwrapping.
  The loader only asks for the sentinel \<open>ErrSourceNotFound\<close>.
\<close>

fun errors_Is :: "go_error \<Rightarrow> go_error \<Rightarrow> bool" where
  "errors_Is (Errorf p e) target = (Errorf p e = target \<or> errors_Is e target)"
| "errors_Is e target = (e = target)"

subsection \<open>The world: files, environment, calls made\<close>

text \<open>
  Modelled from the spec: the file system and the process environment that the calls
  of the loader to \<^verbatim>\<open>os\<close> and to \<^verbatim>\<open>godotenv\<close> work on are not part of the
  repository. A source either does not exist, or is refused by the file system for
  another reason, or holds text that is or is not of the dotenv format (sections 4.1
  and 4.2). The files do not change while the loader runs.
  What a path holds, as far as the two calls that the loader makes on it can tell:
  \<^item> \<open>Fails n\<close>: the path cannot be resolved; \<^verbatim>\<open>os.Stat\<close> and opening the file both
    fail with \<open>n\<close> (\<open>Fails ENOENT\<close> is the file that does not exist);
  \<^item> \<open>Unreadable n\<close>: \<^verbatim>\<open>os.Stat\<close> succeeds, reading the file fails with \<open>n\<close>;
  \<^item> \<open>Malformed m\<close>: the file is read and the dotenv parser rejects it with message \<open>m\<close>;
  \<^item> \<open>Parsed kv\<close>: the file is read and parsed to the key/value map \<open>kv\<close>.
\<close>

datatype entry =
    Fails errno
  | Unreadable errno
  | Malformed string
  | Parsed "string \<rightharpoonup> string"

text \<open>Calls to the outside, in the order they are made.\<close>

datatype extcall = CallStat string | CallGodotenv string | CallParse

record world =
  filesystem :: "string \<Rightarrow> entry"
  environ :: "string \<rightharpoonup> string"
  calls :: "extcall list"

definition called :: "extcall \<Rightarrow> world \<Rightarrow> world" where
  "called c w = w\<lparr>calls := calls w @ [c]\<rparr>"

text \<open>
  Modelled from the spec: \<^verbatim>\<open>os.Stat\<close> belongs to the Go standard library. Section
  4.1: given a source path, determine existence. The loader drops the file information
  and keeps the error.
\<close>

definition os_Stat :: "string \<Rightarrow> world \<Rightarrow> go_error option \<times> world" where
  "os_Stat name w =
     ((case filesystem w name of
         Fails n \<Rightarrow> Some (PathError ''stat'' name n)
       | _ \<Rightarrow> None),
      called (CallStat name) w)"

text \<open>
  Modelled from the spec: \<^verbatim>\<open>os.IsNotExist\<close> belongs to the Go standard library.
  Section 4.1 tells "not found" from any other file system error: the function is true
  for the error of a missing path, false for \<^verbatim>\<open>nil\<close> and for every other error.
  It looks inside a \<^verbatim>\<open>PathError\<close> only, not inside an error made by
  \<^verbatim>\<open>fmt.Errorf\<close>.
\<close>

fun os_IsNotExist :: "go_error option \<Rightarrow> bool" where
  "os_IsNotExist (Some (PathError op path n)) = (n = ENOENT)"
| "os_IsNotExist _ = False"

text \<open>
  Modelled from the spec: \<^verbatim>\<open>godotenv.Load\<close> belongs to the library
  \<^verbatim>\<open>github.com/joho/godotenv\<close>, which is not part of the repository. Section 4.2:
  the pairs of the file are applied to the environment with insert-if-absent
  semantics, and a file that cannot be read or parsed fails the load. So, for
  \<^verbatim>\<open>godotenv.Load(filename)\<close> with one file name: when the file cannot be read or
  parsed the error is returned and the environment is left as it was. Otherwise every
  key of the file that the environment does not hold yet is set; a key that the
  environment holds keeps its value (\<open>kv ++ environ w\<close> looks a key up in
  \<open>environ w\<close> first and in \<open>kv\<close> only when it is absent there).
\<close>

definition godotenv_Load :: "string \<Rightarrow> world \<Rightarrow> go_error option \<times> world" where
  "godotenv_Load filename w =
     (let w1 = called (CallGodotenv filename) w in
      case filesystem w filename of
        Fails n \<Rightarrow> (Some (PathError ''open'' filename n), w1)
      | Unreadable n \<Rightarrow> (Some (PathError ''read'' filename n), w1)
      | Malformed m \<Rightarrow> (Some (LibError m), w1)
      | Parsed kv \<Rightarrow> (None, w1\<lparr>environ := kv ++ environ w1\<rparr>))"

text \<open>
  Modelled from the spec: \<^verbatim>\<open>env.ParseWithOptions\<close> belongs to the library
  \<^verbatim>\<open>github.com/caarlos0/env\<close>, which is not part of the repository (section 4.3).
  The struct parser for the target type \<open>'cfg\<close> is a parameter
  \<open>bind\<close>: from the parser options and the environment it gives the error (or
  \<^verbatim>\<open>nil\<close>) and the struct as it has filled it.
  \<^verbatim>\<open>env.ParseWithOptions(&cfg, opts)\<close> runs it on the environment of the moment.
\<close>

type_synonym ('o, 'cfg) parser = "'o \<Rightarrow> (string \<rightharpoonup> string) \<Rightarrow> go_error option \<times> 'cfg"

definition env_ParseWithOptions ::
  "('o, 'cfg) parser \<Rightarrow> 'o \<Rightarrow> world \<Rightarrow> (go_error option \<times> 'cfg) \<times> world" where
  "env_ParseWithOptions bind opts w = (bind opts (environ w), called CallParse w)"

subsection \<open>Options (\<^verbatim>\<open>src/unnamed/part_003\<close>)\<close>

text \<open>
  \<^verbatim>\<open>env.Options\<close> of the parser library is the type parameter \<open>'o\<close>.
\<close>

record 'o Options =
  SkipMissingFiles :: bool
  EnvOptions :: 'o

text \<open>
  \<^verbatim>\<open>type Option func(*Options) error\<close>: the function may change the record it
  points to and returns an error or \<^verbatim>\<open>nil\<close>.
\<close>

type_synonym 'o Option = "'o Options \<Rightarrow> go_error option \<times> 'o Options"

definition WithSkipMissingFiles :: "'o Option" where
  "WithSkipMissingFiles = (\<lambda>opts. (None, opts\<lparr>SkipMissingFiles := True\<rparr>))"

definition WithEnvOptions :: "'o \<Rightarrow> 'o Option" where
  "WithEnvOptions envOptions = (\<lambda>opts. (None, opts\<lparr>EnvOptions := envOptions\<rparr>))"

subsection \<open>Loader (\<^verbatim>\<open>src/unnamed/part_001\<close>)\<close>

record 'o Loader =
  Files :: "string list"
  Options :: "'o Options"

text \<open>
  The loop of \<^verbatim>\<open>NewLoader\<close> over the options: each option works on
  \<^verbatim>\<open>&loader.Options\<close>; the first error ends the construction.
\<close>

fun NewLoader_opts :: "'o Option list \<Rightarrow> 'o Loader \<Rightarrow> 'o Loader option \<times> go_error option" where
  "NewLoader_opts [] loader = (Some loader, None)"
| "NewLoader_opts (opt # opts) loader =
     (case opt (Options loader) of
        (Some err, _) \<Rightarrow> (None, Some (Errorf ''error creating loader: invalid option: '' err))
      | (None, options) \<Rightarrow> NewLoader_opts opts (loader\<lparr>Options := options\<rparr>))"

text \<open>
  \<^verbatim>\<open>NewLoader(files, opts...)\<close>. The loader starts with the zero value of
  \<^verbatim>\<open>Options\<close>: \<open>SkipMissingFiles\<close> false and the zero value \<open>zero\<close> of
  \<^verbatim>\<open>env.Options\<close>. The result is the pair of Go: loader or \<^verbatim>\<open>nil\<close>, error or
  \<^verbatim>\<open>nil\<close>. The function takes no world and returns none.
\<close>

definition NewLoader ::
  "'o \<Rightarrow> string list \<Rightarrow> 'o Option list \<Rightarrow> 'o Loader option \<times> go_error option" where
  "NewLoader zero files opts =
     (if length files = 0 then (None, Some ErrEnvFilesNotSpecified)
      else NewLoader_opts opts
             \<lparr>Files = files, Options = \<lparr>SkipMissingFiles = False, EnvOptions = zero\<rparr>\<rparr>)"

text \<open>\<^verbatim>\<open>loadEnvFile(filename)\<close>.\<close>

definition loadEnvFile :: "string \<Rightarrow> world \<Rightarrow> go_error option \<times> world" where
  "loadEnvFile filename w =
     (case os_Stat filename w of (err, w1) \<Rightarrow>
        if os_IsNotExist err then (Some ErrSourceNotFound, w1)
        else (case godotenv_Load filename w1 of
                (Some err2, w2) \<Rightarrow> (Some (Errorf ''failed to load env file: '' err2), w2)
              | (None, w2) \<Rightarrow> (None, w2)))"

text \<open>
  The loop of \<^verbatim>\<open>Load\<close> over \<^verbatim>\<open>l.Files\<close>: a file whose error is the not-found
  sentinel is passed over when \<open>SkipMissingFiles\<close> is set; any other error, wrapped
  with the file name, ends the loop.
\<close>

fun Load_files :: "'o Loader \<Rightarrow> string list \<Rightarrow> world \<Rightarrow> go_error option \<times> world" where
  "Load_files l [] w = (None, w)"
| "Load_files l (file # rest) w =
     (case loadEnvFile file w of
        (Some err, w1) \<Rightarrow>
          if SkipMissingFiles (Options l) \<and> errors_Is err ErrSourceNotFound
          then Load_files l rest w1
          else (Some (Errorf (''error loading env file '' @ file @ '': '') err), w1)
      | (None, w1) \<Rightarrow> Load_files l rest w1)"

text \<open>
  \<^verbatim>\<open>Load()\<close>: the files, then the struct parser. The result is the pair of Go
  (configuration or \<^verbatim>\<open>nil\<close>, error or \<^verbatim>\<open>nil\<close>) and the world after the call.
\<close>

definition Load ::
  "('o, 'cfg) parser \<Rightarrow> 'o Loader \<Rightarrow> world \<Rightarrow> ('cfg option \<times> go_error option) \<times> world" where
  "Load bind l w =
     (case Load_files l (Files l) w of
        (Some err, w1) \<Rightarrow> ((None, Some err), w1)
      | (None, w1) \<Rightarrow>
          (case env_ParseWithOptions bind (EnvOptions (Options l)) w1 of
             ((Some err, cfg), w2) \<Rightarrow>
               ((None, Some (Errorf ''error parsing env variables into struct: '' err)), w2)
           | ((None, cfg), w2) \<Rightarrow> ((Some cfg, None), w2)))"

subsection \<open>The generic entry point (\<^verbatim>\<open>goconfig.NewConfig\<close>)\<close>

text \<open>
  \<^verbatim>\<open>ConfigLoader[T]\<close> is the interface with the one method \<^verbatim>\<open>Load() (*T, error)\<close>:
  a loader is what its \<^verbatim>\<open>Load\<close> does to the world.
\<close>

type_synonym 'cfg ConfigLoader = "world \<Rightarrow> ('cfg option \<times> go_error option) \<times> world"

definition NewConfig :: "'cfg ConfigLoader \<Rightarrow> world \<Rightarrow> ('cfg option \<times> go_error option) \<times> world" where
  "NewConfig loader w = loader w"

subsection \<open>Earlier revisions of the loader\<close>

text \<open>
  The repository also holds two earlier revisions of the loader:
  \<^verbatim>\<open>src/loader/env/env.go\<close> and, before it, \<^verbatim>\<open>src/unnamed/part_000\<close>, both with
  the options of \<^verbatim>\<open>src/unnamed/part_002\<close>. The struct has the two fields below, an
  option is a \<^verbatim>\<open>func(*Loader[any])\<close> that changes the loader it points to and
  returns nothing, and the struct parser is called without options
  (\<^verbatim>\<open>env.Parse(&cfg)\<close>). The names below carry a suffix where the newest revision
  has taken the name.
\<close>

record Loader_v1 =
  envFiles :: "string list"
  skipMissingFiles :: bool

type_synonym LoaderOption = "Loader_v1 \<Rightarrow> Loader_v1"

definition WithSkipMissingFiles_v1 :: LoaderOption where
  "WithSkipMissingFiles_v1 l = l\<lparr>skipMissingFiles := True\<rparr>"

fun NewLoader_v1_opts :: "LoaderOption list \<Rightarrow> Loader_v1 \<Rightarrow> Loader_v1" where
  "NewLoader_v1_opts [] loader = loader"
| "NewLoader_v1_opts (opt # opts) loader = NewLoader_v1_opts opts (opt loader)"

text \<open>\<^verbatim>\<open>NewLoader\<close>, the same in both earlier revisions.\<close>

definition NewLoader_v1 ::
  "string list \<Rightarrow> LoaderOption list \<Rightarrow> Loader_v1 option \<times> go_error option" where
  "NewLoader_v1 files opts =
     (if length files = 0 then (None, Some ErrEnvFilesNotSpecified)
      else (Some (NewLoader_v1_opts opts \<lparr>envFiles = files, skipMissingFiles = False\<rparr>), None))"

definition env_Parse ::
  "((string \<rightharpoonup> string) \<Rightarrow> go_error option \<times> 'cfg) \<Rightarrow> world \<Rightarrow>
   (go_error option \<times> 'cfg) \<times> world" where
  "env_Parse bind w = (bind (environ w), called CallParse w)"

text \<open>
  \<^verbatim>\<open>Load\<close> of \<^verbatim>\<open>src/loader/env/env.go\<close>; its \<^verbatim>\<open>loadEnvFile\<close> is the
  \<open>loadEnvFile\<close> above, word for word.
\<close>

fun Load_files_env_go :: "Loader_v1 \<Rightarrow> string list \<Rightarrow> world \<Rightarrow> go_error option \<times> world" where
  "Load_files_env_go l [] w = (None, w)"
| "Load_files_env_go l (file # rest) w =
     (case loadEnvFile file w of
        (Some err, w1) \<Rightarrow>
          if skipMissingFiles l \<and> errors_Is err ErrSourceNotFound
          then Load_files_env_go l rest w1
          else (Some (Errorf (''error loading env file '' @ file @ '': '') err), w1)
      | (None, w1) \<Rightarrow> Load_files_env_go l rest w1)"

definition Load_env_go ::
  "((string \<rightharpoonup> string) \<Rightarrow> go_error option \<times> 'cfg) \<Rightarrow> Loader_v1 \<Rightarrow> world \<Rightarrow>
   ('cfg option \<times> go_error option) \<times> world" where
  "Load_env_go bind l w =
     (case Load_files_env_go l (envFiles l) w of
        (Some err, w1) \<Rightarrow> ((None, Some err), w1)
      | (None, w1) \<Rightarrow>
          (case env_Parse bind w1 of
             ((Some err, cfg), w2) \<Rightarrow>
               ((None, Some (Errorf ''error parsing env variables into struct: '' err)), w2)
           | ((None, cfg), w2) \<Rightarrow> ((Some cfg, None), w2)))"

text \<open>
  \<^verbatim>\<open>fmt.Errorf\<close> with the verb \<^verbatim>\<open>%w\<close> on an error that may be \<^verbatim>\<open>nil\<close>: a
  \<^verbatim>\<open>nil\<close> operand is printed as a bad verb and nothing is wrapped.
\<close>

fun fmt_Errorf :: "string \<Rightarrow> go_error option \<Rightarrow> go_error" where
  "fmt_Errorf p (Some e) = Errorf p e"
| "fmt_Errorf p None = LibError (p @ ''%!w(<nil>)'')"

text \<open>
  \<^verbatim>\<open>Load\<close> of \<^verbatim>\<open>src/unnamed/part_000\<close>: the existence check is written in the
  loop, there is no not-found sentinel, and the error of the check itself is wrapped.
\<close>

fun Load_files_part_000 :: "Loader_v1 \<Rightarrow> string list \<Rightarrow> world \<Rightarrow> go_error option \<times> world" where
  "Load_files_part_000 l [] w = (None, w)"
| "Load_files_part_000 l (file # rest) w =
     (case os_Stat file w of (err, w1) \<Rightarrow>
        if os_IsNotExist err then
          (if skipMissingFiles l then Load_files_part_000 l rest w1
           else (Some (fmt_Errorf (''error loading env file '' @ file @ '': '') err), w1))
        else (case godotenv_Load file w1 of
                (Some err2, w2) \<Rightarrow>
                  (Some (Errorf (''error loading env file '' @ file @ '': '') err2), w2)
              | (None, w2) \<Rightarrow> Load_files_part_000 l rest w2))"

definition Load_part_000 ::
  "((string \<rightharpoonup> string) \<Rightarrow> go_error option \<times> 'cfg) \<Rightarrow> Loader_v1 \<Rightarrow> world \<Rightarrow>
   ('cfg option \<times> go_error option) \<times> world" where
  "Load_part_000 bind l w =
     (case Load_files_part_000 l (envFiles l) w of
        (Some err, w1) \<Rightarrow> ((None, Some err), w1)
      | (None, w1) \<Rightarrow>
          (case env_Parse bind w1 of
             ((Some err, cfg), w2) \<Rightarrow>
               ((None, Some (Errorf ''error parsing env vars: '' err)), w2)
           | ((None, cfg), w2) \<Rightarrow> ((Some cfg, None), w2)))"

text \<open>The loader of the newest revision that an earlier loader corresponds to.\<close>

definition as_Loader :: "Loader_v1 \<Rightarrow> unit Loader" where
  "as_Loader l =
     \<lparr>Files = envFiles l, Options = \<lparr>SkipMissingFiles = skipMissingFiles l, EnvOptions = ()\<rparr>\<rparr>"

subsection \<open>Words for the state of a source\<close>

text \<open>
  A source is \<open>missing\<close> when its path does not exist, \<open>readable\<close> when it is read and
  parsed, \<open>inaccessible\<close> when the file system refuses it for another reason than its
  absence. A source \<open>passes\<close> the loop of \<open>Load\<close> when it is readable, or missing
  while the loader skips missing files.
\<close>

definition missing :: "world \<Rightarrow> string \<Rightarrow> bool" where
  "missing w p = (case filesystem w p of Fails n \<Rightarrow> n = ENOENT | _ \<Rightarrow> False)"

definition readable :: "world \<Rightarrow> string \<Rightarrow> bool" where
  "readable w p = (case filesystem w p of Parsed kv \<Rightarrow> True | _ \<Rightarrow> False)"

definition inaccessible :: "world \<Rightarrow> string \<Rightarrow> bool" where
  "inaccessible w p =
     (case filesystem w p of Fails n \<Rightarrow> n \<noteq> ENOENT | Unreadable n \<Rightarrow> True | _ \<Rightarrow> False)"

definition passes :: "'o Loader \<Rightarrow> world \<Rightarrow> string \<Rightarrow> bool" where
  "passes l w p = (readable w p \<or> (SkipMissingFiles (Options l) \<and> missing w p))"

text \<open>What a source defines for a key: nothing unless it is readable.\<close>

definition source_value :: "world \<Rightarrow> string \<Rightarrow> string \<Rightarrow> string option" where
  "source_value w p k = (case filesystem w p of Parsed kv \<Rightarrow> kv k | _ \<Rightarrow> None)"

text \<open>
  The calls the loader makes for one source: the existence check, and the dotenv
  library unless the check says that the path does not exist.
\<close>

definition source_calls :: "world \<Rightarrow> string \<Rightarrow> extcall list" where
  "source_calls w p = (if missing w p then [CallStat p] else [CallStat p, CallGodotenv p])"

text \<open>The calls made between a world and a later one.\<close>

definition new_calls :: "world \<Rightarrow> world \<Rightarrow> extcall list" where
  "new_calls w w' = drop (length (calls w)) (calls w')"

subsection \<open>A sample world\<close>

text \<open>
  Two dotenv files that both define \<open>FOO\<close>, a file that the parser rejects, a file
  that may not be read; no other path exists. The environment holds \<open>HOME\<close> only.
\<close>

definition sample_disk :: "string \<Rightarrow> entry" where
  "sample_disk p =
     (if p = ''first.env'' then Parsed [''FOO'' \<mapsto> ''1'']
      else if p = ''second.env'' then Parsed [''FOO'' \<mapsto> ''2'', ''BAR'' \<mapsto> ''b'']
      else if p = ''broken.env'' then Malformed ''unexpected character in variable name''
      else if p = ''locked.env'' then Unreadable EACCES
      else Fails ENOENT)"

definition sample_world :: world where
  "sample_world = \<lparr>filesystem = sample_disk, environ = [''HOME'' \<mapsto> ''/root''], calls = []\<rparr>"

text \<open>
  The struct parser for the \<^verbatim>\<open>FooConfig\<close> of the README, a struct with the one
  field \<^verbatim>\<open>Foo string `env:"FOO,required"`\<close>; it does not look at its options.
\<close>

definition parse_FooConfig :: "(unit, string) parser" where
  "parse_FooConfig opts env =
     (case env ''FOO'' of
        None \<Rightarrow> (Some (LibError ''env: required environment variable FOO is not set''), [])
      | Some v \<Rightarrow> (None, v))"

text \<open>An option written by a caller that refuses the options it is given.\<close>

definition rejectingOption :: "unit Option" where
  "rejectingOption opts = (Some (LibError ''unsupported''), opts)"

definition sample_loader :: "bool \<Rightarrow> string list \<Rightarrow> unit Loader" where
  "sample_loader skip files =
     \<lparr>Files = files, Options = \<lparr>SkipMissingFiles = skip, EnvOptions = ()\<rparr>\<rparr>"

section \<open>Properties\<close>

subsection \<open>One source\<close>


lemma called_simps [simp]:
  "filesystem (called c w) = filesystem w"
  "environ (called c w) = environ w"
  "calls (called c w) = calls w @ [c]"
  by (simp_all add: called_def)

lemma loadEnvFile_missing:
  "filesystem w f = Fails ENOENT \<Longrightarrow> loadEnvFile f w = (Some ErrSourceNotFound, called (CallStat f) w)"
  by (simp add: loadEnvFile_def os_Stat_def)

lemma loadEnvFile_Fails:
  "filesystem w f = Fails n \<Longrightarrow> n \<noteq> ENOENT \<Longrightarrow>
   loadEnvFile f w = (Some (Errorf ''failed to load env file: '' (PathError ''open'' f n)),
      called (CallGodotenv f) (called (CallStat f) w))"
  by (simp add: loadEnvFile_def os_Stat_def godotenv_Load_def)

lemma loadEnvFile_Unreadable:
  "filesystem w f = Unreadable n \<Longrightarrow>
   loadEnvFile f w = (Some (Errorf ''failed to load env file: '' (PathError ''read'' f n)),
      called (CallGodotenv f) (called (CallStat f) w))"
  by (simp add: loadEnvFile_def os_Stat_def godotenv_Load_def)

lemma loadEnvFile_Malformed:
  "filesystem w f = Malformed m \<Longrightarrow>
   loadEnvFile f w = (Some (Errorf ''failed to load env file: '' (LibError m)),
      called (CallGodotenv f) (called (CallStat f) w))"
  by (simp add: loadEnvFile_def os_Stat_def godotenv_Load_def)

lemma loadEnvFile_Parsed:
  "filesystem w f = Parsed kv \<Longrightarrow>
   loadEnvFile f w = (None,
      (called (CallGodotenv f) (called (CallStat f) w))\<lparr>environ := kv ++ environ w\<rparr>)"
  by (simp add: loadEnvFile_def os_Stat_def godotenv_Load_def)

lemma loadEnvFile_cases:
  obtains (missing) "filesystem w f = Fails ENOENT"
  | (fails) n where "filesystem w f = Fails n" "n \<noteq> ENOENT"
  | (unreadable) n where "filesystem w f = Unreadable n"
  | (malformed) m where "filesystem w f = Malformed m"
  | (parsed) kv where "filesystem w f = Parsed kv"
  by (cases "filesystem w f") auto

lemma loadEnvFile_filesystem: "filesystem (snd (loadEnvFile f w)) = filesystem w"
  by (cases w f rule: loadEnvFile_cases)
     (simp_all add: loadEnvFile_missing loadEnvFile_Fails loadEnvFile_Unreadable
        loadEnvFile_Malformed loadEnvFile_Parsed)

lemma Load_files_append:
  "Load_files l (xs @ ys) w =
     (case Load_files l xs w of (Some e, w1) \<Rightarrow> (Some e, w1) | (None, w1) \<Rightarrow> Load_files l ys w1)"
  by (induction xs arbitrary: w) (auto split: prod.splits option.splits)


lemmas loadEnvFile_entry =
  loadEnvFile_missing loadEnvFile_Fails loadEnvFile_Unreadable loadEnvFile_Malformed
  loadEnvFile_Parsed

lemma loadEnvFile_keeps:
  "environ w k = Some v \<Longrightarrow> environ (snd (loadEnvFile f w)) k = Some v"
  by (cases w f rule: loadEnvFile_cases) (simp_all add: loadEnvFile_entry map_add_Some_iff)

lemma loadEnvFile_error_environ:
  "loadEnvFile f w = (Some e, w1) \<Longrightarrow> environ w1 = environ w"
  by (cases w f rule: loadEnvFile_cases) (auto simp add: loadEnvFile_entry)

lemma Load_files_filesystem: "filesystem (snd (Load_files l fs w)) = filesystem w"
proof (induction fs arbitrary: w)
  case Nil
  show ?case by simp
next
  case (Cons f fs)
  have "filesystem (snd (loadEnvFile f w)) = filesystem w"
    by (rule loadEnvFile_filesystem)
  with Cons show ?case
    by (cases "loadEnvFile f w") (auto split: option.splits)
qed

lemma Load_files_keeps:
  "environ w k = Some v \<Longrightarrow> environ (snd (Load_files l fs w)) k = Some v"
proof (induction fs arbitrary: w)
  case Nil
  then show ?case by simp
next
  case (Cons f fs)
  from Cons.prems have "environ (snd (loadEnvFile f w)) k = Some v"
    by (rule loadEnvFile_keeps)
  with Cons.IH show ?case
    by (cases "loadEnvFile f w") (auto split: option.splits)
qed

lemma Load_files_dom_mono:
  "dom (environ w) \<subseteq> dom (environ (snd (Load_files l fs w)))"
  using Load_files_keeps by (fastforce simp: dom_def)

lemma Load_files_again:
  "Load_files l fs w = (e, w1) \<Longrightarrow> filesystem w2 = filesystem w \<Longrightarrow>
   dom (environ w1) \<subseteq> dom (environ w2) \<Longrightarrow>
   fst (Load_files l fs w2) = e \<and> environ (snd (Load_files l fs w2)) = environ w2"
proof (induction fs arbitrary: w w2)
  case Nil
  then show ?case by simp
next
  case (Cons f fs)
  show ?case
  proof (cases w f rule: loadEnvFile_cases)
    case missing
    with Cons.prems(2) have m2: "filesystem w2 f = Fails ENOENT" by simp
    show ?thesis
    proof (cases "SkipMissingFiles (Options l)")
      case True
      with Cons.prems(1) missing
      have "Load_files l fs (called (CallStat f) w) = (e, w1)"
        by (simp add: loadEnvFile_missing)
      from Cons.IH [OF this, of "called (CallStat f) w2"] Cons.prems(2,3) True m2
      show ?thesis by (simp add: loadEnvFile_missing)
    next
      case False
      with Cons.prems(1) missing m2 show ?thesis
        by (auto simp add: loadEnvFile_missing)
    qed
  next
    case (fails n)
    with Cons.prems show ?thesis by (auto simp add: loadEnvFile_Fails)
  next
    case (unreadable n)
    with Cons.prems show ?thesis by (auto simp add: loadEnvFile_Unreadable)
  next
    case (malformed m)
    with Cons.prems show ?thesis by (auto simp add: loadEnvFile_Malformed)
  next
    case (parsed kv)
    let ?w' = "(called (CallGodotenv f) (called (CallStat f) w))\<lparr>environ := kv ++ environ w\<rparr>"
    let ?w2' = "(called (CallGodotenv f) (called (CallStat f) w2))\<lparr>environ := kv ++ environ w2\<rparr>"
    from Cons.prems(1) parsed have run: "Load_files l fs ?w' = (e, w1)"
      by (simp add: loadEnvFile_Parsed)
    have "dom (environ ?w') \<subseteq> dom (environ (snd (Load_files l fs ?w')))"
      by (rule Load_files_dom_mono)
    with run have "dom kv \<subseteq> dom (environ w1)" by simp
    with Cons.prems(3) have sub: "dom kv \<subseteq> dom (environ w2)" by blast
    have same: "kv ++ environ w2 = environ w2"
    proof
      fix k
      show "(kv ++ environ w2) k = environ w2 k"
        using sub by (cases "environ w2 k") (auto simp: map_add_def dom_def)
    qed
    from Cons.prems(2) parsed have p2: "filesystem w2 f = Parsed kv" by simp
    from Cons.IH [OF run, of ?w2'] Cons.prems(2,3) same
    have "fst (Load_files l fs ?w2') = e \<and> environ (snd (Load_files l fs ?w2')) = environ w2"
      by simp
    with p2 show ?thesis by (simp add: loadEnvFile_Parsed)
  qed
qed


lemma loadEnvFile_fst_cong:
  "filesystem w2 = filesystem w \<Longrightarrow> fst (loadEnvFile f w2) = fst (loadEnvFile f w)"
  by (cases w f rule: loadEnvFile_cases) (simp_all add: loadEnvFile_entry)

lemma passes_cases:
  assumes "passes l w p"
  obtains (parsed) kv where "filesystem w p = Parsed kv"
  | (skipped) "SkipMissingFiles (Options l)" "filesystem w p = Fails ENOENT"
  using assms
  by (cases "filesystem w p") (auto simp: passes_def readable_def missing_def)

lemma Load_files_parsed_step:
  "filesystem w p = Parsed kv \<Longrightarrow>
   Load_files l (p # ps) w =
     Load_files l ps
       ((called (CallGodotenv p) (called (CallStat p) w))\<lparr>environ := kv ++ environ w\<rparr>)"
  by (simp add: loadEnvFile_Parsed)

lemma Load_files_skipped_step:
  "SkipMissingFiles (Options l) \<Longrightarrow> filesystem w p = Fails ENOENT \<Longrightarrow>
   Load_files l (p # ps) w = Load_files l ps (called (CallStat p) w)"
  by (simp add: loadEnvFile_missing)

lemma Load_files_passes:
  "\<forall>p\<in>set ps. passes l w0 p \<Longrightarrow> filesystem w = filesystem w0 \<Longrightarrow>
   fst (Load_files l ps w) = None \<and>
   calls (snd (Load_files l ps w)) = calls w @ concat (map (source_calls w0) ps)"
proof (induction ps arbitrary: w)
  case Nil
  show ?case by simp
next
  case (Cons p ps)
  from Cons.prems have "passes l w0 p" by simp
  then show ?case
  proof (cases rule: passes_cases)
    case (parsed kv)
    let ?w' = "(called (CallGodotenv p) (called (CallStat p) w))\<lparr>environ := kv ++ environ w\<rparr>"
    from parsed Cons.prems(2) have here: "filesystem w p = Parsed kv" by simp
    from parsed have sc: "source_calls w0 p = [CallStat p, CallGodotenv p]"
      by (simp add: source_calls_def missing_def)
    from Cons.prems have "fst (Load_files l ps ?w') = None \<and>
        calls (snd (Load_files l ps ?w')) = calls ?w' @ concat (map (source_calls w0) ps)"
      by (intro Cons.IH) simp_all
    with here sc show ?thesis
      by (simp add: Load_files_parsed_step del: Load_files.simps)
  next
    case skipped
    let ?w' = "called (CallStat p) w"
    from skipped Cons.prems(2) have here: "filesystem w p = Fails ENOENT" by simp
    from skipped have sc: "source_calls w0 p = [CallStat p]"
      by (simp add: source_calls_def missing_def)
    from Cons.prems have "fst (Load_files l ps ?w') = None \<and>
        calls (snd (Load_files l ps ?w')) = calls ?w' @ concat (map (source_calls w0) ps)"
      by (intro Cons.IH) simp_all
    with here sc skipped(1) show ?thesis
      by (simp add: Load_files_skipped_step del: Load_files.simps)
  qed
qed

lemma Load_files_environ_None:
  "\<forall>p\<in>set ps. passes l w0 p \<Longrightarrow> filesystem w = filesystem w0 \<Longrightarrow>
   environ w k = None \<Longrightarrow> \<forall>p\<in>set ps. source_value w0 p k = None \<Longrightarrow>
   environ (snd (Load_files l ps w)) k = None"
proof (induction ps arbitrary: w)
  case Nil
  then show ?case by simp
next
  case (Cons p ps)
  from Cons.prems have "passes l w0 p" by simp
  then show ?case
  proof (cases rule: passes_cases)
    case (parsed kv)
    let ?w' = "(called (CallGodotenv p) (called (CallStat p) w))\<lparr>environ := kv ++ environ w\<rparr>"
    from parsed Cons.prems(2) have here: "filesystem w p = Parsed kv" by simp
    from parsed Cons.prems(4) have "kv k = None" by (simp add: source_value_def)
    with Cons.prems(3) have "environ ?w' k = None" by (simp add: map_add_def)
    with Cons.prems have "environ (snd (Load_files l ps ?w')) k = None"
      by (intro Cons.IH) simp_all
    with here show ?thesis by (simp add: Load_files_parsed_step del: Load_files.simps)
  next
    case skipped
    from skipped Cons.prems(2) have here: "filesystem w p = Fails ENOENT" by simp
    from Cons.prems have "environ (snd (Load_files l ps (called (CallStat p) w))) k = None"
      by (intro Cons.IH) simp_all
    with here skipped(1) show ?thesis by (simp add: Load_files_skipped_step del: Load_files.simps)
  qed
qed

lemma loadEnvFile_not_passes:
  "\<not> passes l w f \<Longrightarrow>
   \<exists>err. loadEnvFile f w = (Some err, w\<lparr>calls := calls w @ source_calls w f\<rparr>) \<and>
     \<not> (SkipMissingFiles (Options l) \<and> errors_Is err ErrSourceNotFound)"
  by (cases w f rule: loadEnvFile_cases)
     (auto simp add: loadEnvFile_entry passes_def readable_def missing_def source_calls_def
        called_def)

lemma Load_files_stop:
  assumes "\<not> passes l w f"
  shows "\<exists>err. fst (loadEnvFile f w) = Some err \<and>
           Load_files l (f # post) w =
             (Some (Errorf (''error loading env file '' @ f @ '': '') err),
              w\<lparr>calls := calls w @ source_calls w f\<rparr>)"
proof -
  from loadEnvFile_not_passes [OF assms]
  obtain err where "loadEnvFile f w = (Some err, w\<lparr>calls := calls w @ source_calls w f\<rparr>)"
    and "\<not> (SkipMissingFiles (Options l) \<and> errors_Is err ErrSourceNotFound)"
    by blast
  then show ?thesis by auto
qed

lemma passes_cong: "filesystem w2 = filesystem w \<Longrightarrow> passes l w2 p = passes l w p"
  by (simp add: passes_def readable_def missing_def)

lemma source_calls_cong:
  "filesystem w2 = filesystem w \<Longrightarrow> source_calls w2 p = source_calls w p"
  by (simp add: source_calls_def missing_def)

text \<open>The loop up to and including the source that ends it.\<close>

lemma Load_files_first_failure:
  assumes pre: "\<forall>p\<in>set pre. passes l w p" and f: "\<not> passes l w f"
  shows "\<exists>err. fst (loadEnvFile f w) = Some err \<and>
           fst (Load_files l (pre @ f # post) w) =
             Some (Errorf (''error loading env file '' @ f @ '': '') err) \<and>
           environ (snd (Load_files l (pre @ f # post) w)) = environ (snd (Load_files l pre w)) \<and>
           calls (snd (Load_files l (pre @ f # post) w)) =
             calls w @ concat (map (source_calls w) (pre @ [f]))"
proof -
  obtain w1 where w1: "Load_files l pre w = (None, w1)"
    and c1: "calls w1 = calls w @ concat (map (source_calls w) pre)"
    using Load_files_passes [OF pre refl] by (cases "Load_files l pre w") auto
  have fs1: "filesystem w1 = filesystem w"
    using Load_files_filesystem [of l pre w] w1 by simp
  from f have "\<not> passes l w1 f" by (simp add: passes_cong [OF fs1])
  from Load_files_stop [OF this, of post]
  obtain err where e: "fst (loadEnvFile f w1) = Some err"
    and r: "Load_files l (f # post) w1 =
       (Some (Errorf (''error loading env file '' @ f @ '': '') err),
        w1\<lparr>calls := calls w1 @ source_calls w1 f\<rparr>)"
    by blast
  from e have "fst (loadEnvFile f w) = Some err"
    by (simp add: loadEnvFile_fst_cong [OF fs1])
  moreover from w1 r c1
  have "fst (Load_files l (pre @ f # post) w) =
          Some (Errorf (''error loading env file '' @ f @ '': '') err)"
    and "environ (snd (Load_files l (pre @ f # post) w)) = environ (snd (Load_files l pre w))"
    and "calls (snd (Load_files l (pre @ f # post) w)) =
           calls w @ concat (map (source_calls w) (pre @ [f]))"
    by (simp_all add: Load_files_append source_calls_cong [OF fs1] del: Load_files.simps)
  ultimately show ?thesis by blast
qed



subsection \<open>The whole of Load\<close>

lemma Load_failure:
  "Load_files l (Files l) w = (Some err, w1) \<Longrightarrow> Load bind l w = ((None, Some err), w1)"
  by (simp add: Load_def)

lemma Load_parse:
  "Load_files l (Files l) w = (None, w1) \<Longrightarrow>
   Load bind l w =
     ((case bind (EnvOptions (Options l)) (environ w1) of
         (Some err, cfg) \<Rightarrow>
           (None, Some (Errorf ''error parsing env variables into struct: '' err))
       | (None, cfg) \<Rightarrow> (Some cfg, None)),
      called CallParse w1)"
  by (simp add: Load_def env_ParseWithOptions_def split: prod.splits option.splits)

lemma Load_environ:
  "environ (snd (Load bind l w)) = environ (snd (Load_files l (Files l) w))"
proof (cases "Load_files l (Files l) w")
  case (Pair e w1)
  then show ?thesis
    by (cases e) (simp_all add: Load_failure Load_parse)
qed

lemma Load_filesystem: "filesystem (snd (Load bind l w)) = filesystem w"
proof (cases "Load_files l (Files l) w")
  case (Pair e w1)
  with Load_files_filesystem [of l "Files l" w] have "filesystem w1 = filesystem w" by simp
  with Pair show ?thesis
    by (cases e) (simp_all add: Load_failure Load_parse)
qed

lemma Load_keeps:
  "environ w k = Some v \<Longrightarrow> environ (snd (Load bind l w)) k = Some v"
  by (simp add: Load_environ Load_files_keeps)

text \<open>
  C1. A key that the environment holds keeps its value through \<open>Load\<close>, whatever the
  files say: this covers the ambient environment and what an earlier call has set
  (last part: a key that one \<open>Load\<close> leaves in the environment keeps its value through
  the next \<open>Load\<close>, of the same loader or another).
  Among the files of one call the first listed wins: when the sources before \<open>f1\<close>
  pass without defining the key \<open>k\<close>, the environment does not hold it and \<open>f1\<close>
  defines \<open>k\<close> as \<open>v1\<close>, the environment holds \<open>v1\<close> for \<open>k\<close> after \<open>Load\<close>, whatever
  the sources listed after \<open>f1\<close> define. In particular with the files \<open>[f1, f2]\<close>,
  \<open>f1\<close> defining \<open>k\<close> as \<open>v1\<close> and \<open>f2\<close> as \<open>v2\<close>.
\<close>

theorem C1_first_listed_wins:
  "(environ w k = Some v \<longrightarrow> environ (snd (Load bind l w)) k = Some v) \<and>
   (Files l = pre @ f1 # post \<and> (\<forall>p\<in>set pre. passes l w p \<and> source_value w p k = None) \<and>
    environ w k = None \<and> source_value w f1 k = Some v1 \<longrightarrow>
      environ (snd (Load bind l w)) k = Some v1) \<and>
   (Files l = [f1, f2] \<and> environ w k = None \<and>
    source_value w f1 k = Some v1 \<and> source_value w f2 k = Some v2 \<longrightarrow>
      environ (snd (Load bind l w)) k = Some v1) \<and>
   (environ (snd (Load bind l w)) k = Some v \<longrightarrow>
      environ (snd (Load bind l' (snd (Load bind l w)))) k = Some v)"
proof -
  have first: "environ (snd (Load bind l w)) k = Some v1"
    if files: "Files l = pre @ f1 # post"
      and pre: "\<forall>p\<in>set pre. passes l w p \<and> source_value w p k = None"
      and absent: "environ w k = None"
      and def1: "source_value w f1 k = Some v1"
    for pre post
  proof -
    from pre have pass: "\<forall>p\<in>set pre. passes l w p"
      and undef: "\<forall>p\<in>set pre. source_value w p k = None" by simp_all
    obtain w1 where w1: "Load_files l pre w = (None, w1)"
      using Load_files_passes [OF pass refl] by (cases "Load_files l pre w") auto
    from Load_files_environ_None [OF pass refl absent undef] w1
    have none1: "environ w1 k = None" by simp
    from Load_files_filesystem [of l pre w] w1 have fs1: "filesystem w1 = filesystem w"
      by simp
    from def1 obtain kv where kv: "filesystem w f1 = Parsed kv" and v1: "kv k = Some v1"
      by (cases "filesystem w f1") (simp_all add: source_value_def)
    let ?w2 = "(called (CallGodotenv f1) (called (CallStat f1) w1))\<lparr>environ := kv ++ environ w1\<rparr>"
    from kv fs1 have "filesystem w1 f1 = Parsed kv" by simp
    then have step: "Load_files l (f1 # post) w1 = Load_files l post ?w2"
      by (rule Load_files_parsed_step)
    from v1 none1 have "environ ?w2 k = Some v1" by (simp add: map_add_def)
    then have "environ (snd (Load_files l post ?w2)) k = Some v1"
      by (rule Load_files_keeps)
    with w1 step have "environ (snd (Load_files l (pre @ f1 # post) w)) k = Some v1"
      by (simp add: Load_files_append del: Load_files.simps)
    with files show ?thesis by (simp add: Load_environ)
  qed
  have "environ (snd (Load bind l w)) k = Some v1"
    if "Files l = [f1, f2]" "environ w k = None" "source_value w f1 k = Some v1"
    using first [of "[]" "[f2]"] that by simp
  moreover have "environ (snd (Load bind l' (snd (Load bind l w)))) k = Some v"
    if "environ (snd (Load bind l w)) k = Some v"
    using that by (rule Load_keeps)
  moreover have "environ (snd (Load bind l w)) k = Some v" if "environ w k = Some v"
    using that by (rule Load_keeps)
  ultimately show ?thesis using first by blast
qed

theorem C1_first_listed_wins_witness:
  "environ (snd (Load parse_FooConfig (sample_loader False [''first.env'', ''second.env''])
      sample_world)) ''HOME'' = Some ''/root'' \<and>
   environ (snd (Load parse_FooConfig (sample_loader True [''absent.env'', ''first.env'', ''second.env''])
      sample_world)) ''FOO'' = Some ''1'' \<and>
   environ (snd (Load parse_FooConfig (sample_loader False [''first.env'', ''second.env''])
      sample_world)) ''FOO'' = Some ''1''"
proof -
  let ?l = "sample_loader False [''first.env'', ''second.env'']"
  let ?s = "sample_loader True [''absent.env'', ''first.env'', ''second.env'']"
  have home: "environ sample_world ''HOME'' = Some ''/root''"
    by (simp add: sample_world_def)
  have foo: "environ sample_world ''FOO'' = None"
    by (simp add: sample_world_def)
  have d1: "source_value sample_world ''first.env'' ''FOO'' = Some ''1''"
    by (simp add: source_value_def sample_world_def sample_disk_def)
  have d2: "source_value sample_world ''second.env'' ''FOO'' = Some ''2''"
    by (simp add: source_value_def sample_world_def sample_disk_def)
  have files: "Files ?l = [''first.env'', ''second.env'']"
    by (simp add: sample_loader_def)
  have sfiles: "Files ?s = [''absent.env''] @ ''first.env'' # [''second.env'']"
    by (simp add: sample_loader_def)
  have pre: "\<forall>p\<in>set [''absent.env'']. passes ?s sample_world p \<and>
      source_value sample_world p ''FOO'' = None"
    by (simp add: passes_def missing_def readable_def source_value_def sample_loader_def
        sample_world_def sample_disk_def)
  from C1_first_listed_wins [of sample_world "''HOME''" "''/root''" parse_FooConfig ?l]
    home
  have a: "environ (snd (Load parse_FooConfig ?l sample_world)) ''HOME'' = Some ''/root''"
    by blast
  from C1_first_listed_wins [of sample_world "''FOO''" _ parse_FooConfig ?s
      "[''absent.env'']" "''first.env''" "[''second.env'']" "''1''"]
    sfiles pre foo d1
  have b: "environ (snd (Load parse_FooConfig ?s sample_world)) ''FOO'' = Some ''1''"
    by blast
  from C1_first_listed_wins [of sample_world "''FOO''" _ parse_FooConfig ?l
      _ "''first.env''" _ "''1''" "''second.env''" "''2''"]
    files foo d1 d2
  have c: "environ (snd (Load parse_FooConfig ?l sample_world)) ''FOO'' = Some ''1''"
    by blast
  from a b c show ?thesis by blast
qed



text \<open>
  C6. A call of \<open>Load\<close> ends in one of two ways: \<^verbatim>\<open>nil\<close> with an error, or a
  configuration with the \<^verbatim>\<open>nil\<close> error; then the configuration is the struct that
  the struct parser has filled, without error, from the environment that \<open>Load\<close> leaves.
\<close>

theorem C6_value_xor_error:
  "(\<exists>err. fst (Load bind l w) = (None, Some err)) \<or>
   (\<exists>cfg. fst (Load bind l w) = (Some cfg, None) \<and>
      bind (EnvOptions (Options l)) (environ (snd (Load bind l w))) = (None, cfg))"
proof (cases "Load_files l (Files l) w")
  case (Pair e w1)
  show ?thesis
  proof (cases e)
    case (Some err)
    with Pair show ?thesis by (simp add: Load_failure)
  next
    case None
    with Pair have run: "Load_files l (Files l) w = (None, w1)" by simp
    obtain e2 cfg where b: "bind (EnvOptions (Options l)) (environ w1) = (e2, cfg)"
      by (cases "bind (EnvOptions (Options l)) (environ w1)")
    with run show ?thesis
      by (cases e2) (simp_all add: Load_parse)
  qed
qed

theorem C6_value_xor_error_witness:
  "fst (Load parse_FooConfig (sample_loader False [''first.env'']) sample_world)
     = (Some ''1'', None) \<and>
   fst (Load parse_FooConfig (sample_loader True [''absent.env'']) sample_world)
     = (None, Some (Errorf ''error parsing env variables into struct: ''
          (LibError ''env: required environment variable FOO is not set'')))"
proof -
  have a: "fst (Load parse_FooConfig (sample_loader False [''first.env'']) sample_world)
     = (Some ''1'', None)"
    by (simp add: Load_def loadEnvFile_def os_Stat_def godotenv_Load_def
        env_ParseWithOptions_def parse_FooConfig_def sample_loader_def sample_world_def
        sample_disk_def map_add_def)
  have b: "fst (Load parse_FooConfig (sample_loader True [''absent.env'']) sample_world)
     = (None, Some (Errorf ''error parsing env variables into struct: ''
          (LibError ''env: required environment variable FOO is not set'')))"
    by (simp add: Load_def loadEnvFile_def os_Stat_def godotenv_Load_def
        env_ParseWithOptions_def parse_FooConfig_def sample_loader_def sample_world_def
        sample_disk_def map_add_def)
  from a b
    C6_value_xor_error [of parse_FooConfig "sample_loader False [''first.env'']" sample_world]
    C6_value_xor_error [of parse_FooConfig "sample_loader True [''absent.env'']" sample_world]
  show ?thesis by simp
qed

text \<open>
  C7. A second \<open>Load\<close> on the same loader, in the world that the first one has left
  (the files are the same, as \<open>Load\<close> writes none), returns what the first one
  returned, configuration and error, and leaves the environment as the first one
  left it.
\<close>

theorem C7_reload_same_result:
  "fst (Load bind l (snd (Load bind l w))) = fst (Load bind l w) \<and>
   environ (snd (Load bind l (snd (Load bind l w)))) = environ (snd (Load bind l w)) \<and>
   filesystem (snd (Load bind l w)) = filesystem w"
proof (cases "Load_files l (Files l) w")
  case (Pair e w1)
  have fs1: "filesystem w1 = filesystem w"
    using Load_files_filesystem [of l "Files l" w] Pair by simp
  show ?thesis
  proof (cases e)
    case (Some err)
    with Pair have first: "Load bind l w = ((None, Some err), w1)"
      by (simp add: Load_failure)
    from Load_files_again [OF Pair fs1] Some
    have "fst (Load_files l (Files l) w1) = Some err"
      and env2: "environ (snd (Load_files l (Files l) w1)) = environ w1" by simp_all
    then obtain w2 where run2: "Load_files l (Files l) w1 = (Some err, w2)"
      by (cases "Load_files l (Files l) w1") simp
    then have "Load bind l w1 = ((None, Some err), w2)"
      by (rule Load_failure)
    with first env2 run2 fs1 show ?thesis
      by simp
  next
    case None
    with Pair have run: "Load_files l (Files l) w = (None, w1)" by simp
    let ?w1' = "called CallParse w1"
    let ?r = "case bind (EnvOptions (Options l)) (environ w1) of
         (Some err, cfg) \<Rightarrow>
           (None, Some (Errorf ''error parsing env variables into struct: '' err))
       | (None, cfg) \<Rightarrow> (Some cfg, None)"
    from run have first: "Load bind l w = (?r, ?w1')" by (rule Load_parse)
    have "filesystem ?w1' = filesystem w" using fs1 by simp
    moreover have "dom (environ w1) \<subseteq> dom (environ ?w1')" by simp
    ultimately have "fst (Load_files l (Files l) ?w1') = None"
      and env2: "environ (snd (Load_files l (Files l) ?w1')) = environ w1"
      using Load_files_again [OF run, of ?w1'] by simp_all
    then obtain w2 where run2: "Load_files l (Files l) ?w1' = (None, w2)"
      and "environ w2 = environ w1"
      by (cases "Load_files l (Files l) ?w1'") simp
    then have "Load bind l ?w1' = (?r, called CallParse w2)"
      by (simp add: Load_parse)
    with first env2 run2 fs1 show ?thesis
      by simp
  qed
qed

theorem C7_reload_same_result_witness:
  "fst (Load parse_FooConfig (sample_loader False [''first.env'', ''second.env''])
     (snd (Load parse_FooConfig (sample_loader False [''first.env'', ''second.env''])
        sample_world))) = (Some ''1'', None)"
proof -
  have "fst (Load parse_FooConfig (sample_loader False [''first.env'', ''second.env''])
      sample_world) = (Some ''1'', None)"
    by (simp add: Load_def loadEnvFile_def os_Stat_def godotenv_Load_def
        env_ParseWithOptions_def parse_FooConfig_def sample_loader_def sample_world_def
        sample_disk_def map_add_def)
  with C7_reload_same_result [of parse_FooConfig
      "sample_loader False [''first.env'', ''second.env'']" sample_world]
  show ?thesis by simp
qed

text \<open>
  C9. \<open>NewConfig\<close> hands back what the \<open>Load\<close> of its loader returns, value, error
  and world, for any loader; the env loader is one of them.
\<close>

theorem C9_NewConfig_delegates:
  "NewConfig loader w = loader w \<and> NewConfig (Load bind l) w = Load bind l w"
  by (simp add: NewConfig_def)

theorem C9_NewConfig_delegates_witness:
  "fst (NewConfig (Load parse_FooConfig (sample_loader False [''first.env''])) sample_world)
     = (Some ''1'', None)"
proof -
  have "fst (Load parse_FooConfig (sample_loader False [''first.env'']) sample_world)
     = (Some ''1'', None)"
    by (simp add: Load_def loadEnvFile_def os_Stat_def godotenv_Load_def
        env_ParseWithOptions_def parse_FooConfig_def sample_loader_def sample_world_def
        sample_disk_def map_add_def)
  with C9_NewConfig_delegates [of "Load parse_FooConfig (sample_loader False [''first.env''])"
      sample_world parse_FooConfig "sample_loader False [''first.env'']"]
  show ?thesis by simp
qed



subsection \<open>Sources that end the loop, sources that are skipped\<close>

lemma Load_fst:
  "fst (Load bind l w) =
     (case fst (Load_files l (Files l) w) of
        Some err \<Rightarrow> (None, Some err)
      | None \<Rightarrow>
          (case bind (EnvOptions (Options l)) (environ (snd (Load_files l (Files l) w))) of
             (Some err, cfg) \<Rightarrow>
               (None, Some (Errorf ''error parsing env variables into struct: '' err))
           | (None, cfg) \<Rightarrow> (Some cfg, None)))"
proof (cases "Load_files l (Files l) w")
  case (Pair e w1)
  then show ?thesis
    by (cases e) (simp_all add: Load_failure Load_parse)
qed

lemma Load_calls:
  "calls (snd (Load bind l w)) =
     (case fst (Load_files l (Files l) w) of
        Some err \<Rightarrow> calls (snd (Load_files l (Files l) w))
      | None \<Rightarrow> calls (snd (Load_files l (Files l) w)) @ [CallParse])"
proof (cases "Load_files l (Files l) w")
  case (Pair e w1)
  then show ?thesis
    by (cases e) (simp_all add: Load_failure Load_parse)
qed

lemma new_calls_append: "calls w' = calls w @ cs \<Longrightarrow> new_calls w w' = cs"
  by (simp add: new_calls_def)

lemma Load_files_fails_iff:
  "fst (Load_files l ps w) \<noteq> None \<longleftrightarrow> (\<exists>p\<in>set ps. \<not> passes l w p)"
proof
  assume "fst (Load_files l ps w) \<noteq> None"
  with Load_files_passes [of ps l w w] show "\<exists>p\<in>set ps. \<not> passes l w p" by blast
next
  assume "\<exists>p\<in>set ps. \<not> passes l w p"
  from split_list_first_prop [OF this]
  obtain pre f post where "ps = pre @ f # post" and "\<not> passes l w f"
    and "\<forall>p\<in>set pre. \<not> \<not> passes l w p"
    by blast
  with Load_files_first_failure [of pre l w f post]
  show "fst (Load_files l ps w) \<noteq> None" by auto
qed

lemma Load_files_calls_irrelevant:
  "filesystem w2 = filesystem w \<Longrightarrow> environ w2 = environ w \<Longrightarrow>
   fst (Load_files l ps w2) = fst (Load_files l ps w) \<and>
   environ (snd (Load_files l ps w2)) = environ (snd (Load_files l ps w))"
proof (induction ps arbitrary: w w2)
  case Nil
  then show ?case by simp
next
  case (Cons p ps)
  show ?case
  proof (cases w p rule: loadEnvFile_cases)
    case missing
    with Cons.prems have m2: "filesystem w2 p = Fails ENOENT" by simp
    from Cons.prems
    have "fst (Load_files l ps (called (CallStat p) w2)) =
            fst (Load_files l ps (called (CallStat p) w)) \<and>
          environ (snd (Load_files l ps (called (CallStat p) w2))) =
            environ (snd (Load_files l ps (called (CallStat p) w)))"
      by (intro Cons.IH) simp_all
    with missing m2 Cons.prems show ?thesis
      by (simp add: loadEnvFile_missing)
  next
    case (fails n)
    with Cons.prems show ?thesis by (simp add: loadEnvFile_Fails)
  next
    case (unreadable n)
    with Cons.prems show ?thesis by (simp add: loadEnvFile_Unreadable)
  next
    case (malformed m)
    with Cons.prems show ?thesis by (simp add: loadEnvFile_Malformed)
  next
    case (parsed kv)
    let ?w' = "(called (CallGodotenv p) (called (CallStat p) w))\<lparr>environ := kv ++ environ w\<rparr>"
    let ?w2' = "(called (CallGodotenv p) (called (CallStat p) w2))\<lparr>environ := kv ++ environ w2\<rparr>"
    from parsed Cons.prems have p2: "filesystem w2 p = Parsed kv" by simp
    from Cons.prems
    have "fst (Load_files l ps ?w2') = fst (Load_files l ps ?w') \<and>
          environ (snd (Load_files l ps ?w2')) = environ (snd (Load_files l ps ?w'))"
      by (intro Cons.IH) simp_all
    with parsed p2 show ?thesis
      by (simp add: loadEnvFile_Parsed)
  qed
qed

lemma loadEnvFile_calls:
  "calls (snd (loadEnvFile p w)) = calls w @ source_calls w p"
  by (cases w p rule: loadEnvFile_cases)
     (simp_all add: loadEnvFile_entry source_calls_def missing_def)

lemma Load_files_no_godotenv_on_missing:
  "missing w f \<Longrightarrow> CallGodotenv f \<notin> set (calls w) \<Longrightarrow>
   CallGodotenv f \<notin> set (calls (snd (Load_files l ps w)))"
proof (induction ps arbitrary: w)
  case Nil
  then show ?case by simp
next
  case (Cons p ps)
  obtain e w1 where step: "loadEnvFile p w = (e, w1)" by (cases "loadEnvFile p w")
  with loadEnvFile_filesystem [of p w] have fs1: "filesystem w1 = filesystem w" by simp
  from step loadEnvFile_calls [of p w] have "calls w1 = calls w @ source_calls w p" by simp
  with Cons.prems have fresh: "CallGodotenv f \<notin> set (calls w1)"
    by (auto simp add: source_calls_def split: if_splits)
  from Cons.prems(1) fs1 have "missing w1 f" by (simp add: missing_def)
  from this fresh have "CallGodotenv f \<notin> set (calls (snd (Load_files l ps w1)))"
    by (rule Cons.IH)
  with step fresh show ?case
    by (cases e) simp_all
qed

text \<open>
  C5. When the sources listed before \<open>f\<close> pass and \<open>f\<close> does not (it fails to load,
  and not in the way that the loader is told to skip), \<open>Load\<close> returns \<^verbatim>\<open>nil\<close> and
  the error of \<open>f\<close> wrapped with the name of \<open>f\<close>. The environment is the one that
  the sources before \<open>f\<close> have left: a key that only \<open>f\<close> or a later source defines
  is not in it. The calls made are those for the sources up to \<open>f\<close>, in listed order:
  no call for a source after \<open>f\<close>, no call of the struct parser.
\<close>

theorem C5_first_failure_aborts:
  assumes "Files l = pre @ f # post" and "\<forall>p\<in>set pre. passes l w p" and "\<not> passes l w f"
  shows "\<exists>err. fst (loadEnvFile f w) = Some err \<and>
     fst (Load bind l w) =
       (None, Some (Errorf (''error loading env file '' @ f @ '': '') err)) \<and>
     environ (snd (Load bind l w)) = environ (snd (Load_files l pre w)) \<and>
     (\<forall>k. environ w k = None \<and> (\<forall>p\<in>set pre. source_value w p k = None) \<longrightarrow>
        environ (snd (Load bind l w)) k = None) \<and>
     new_calls w (snd (Load bind l w)) = concat (map (source_calls w) (pre @ [f]))"
proof -
  from Load_files_first_failure [OF assms(2,3), of post]
  obtain err where e: "fst (loadEnvFile f w) = Some err"
    and r: "fst (Load_files l (pre @ f # post) w) =
             Some (Errorf (''error loading env file '' @ f @ '': '') err)"
    and env: "environ (snd (Load_files l (pre @ f # post) w)) =
             environ (snd (Load_files l pre w))"
    and cs: "calls (snd (Load_files l (pre @ f # post) w)) =
             calls w @ concat (map (source_calls w) (pre @ [f]))"
    by blast
  from r assms(1)
  have "fst (Load bind l w) =
       (None, Some (Errorf (''error loading env file '' @ f @ '': '') err))"
    by (simp add: Load_fst)
  moreover from env assms(1)
  have env': "environ (snd (Load bind l w)) = environ (snd (Load_files l pre w))"
    by (simp add: Load_environ)
  moreover have "environ (snd (Load bind l w)) k = None"
    if "environ w k = None" "\<forall>p\<in>set pre. source_value w p k = None" for k
    using Load_files_environ_None [OF assms(2) refl that] env' by simp
  moreover from r cs assms(1)
  have "calls (snd (Load bind l w)) = calls w @ concat (map (source_calls w) (pre @ [f]))"
    by (simp add: Load_calls)
  then have "new_calls w (snd (Load bind l w)) = concat (map (source_calls w) (pre @ [f]))"
    by (rule new_calls_append)
  ultimately show ?thesis using e by blast
qed

theorem C5_first_failure_aborts_witness:
  "fst (Load parse_FooConfig
          (sample_loader False [''first.env'', ''broken.env'', ''second.env'']) sample_world) =
     (None, Some (Errorf ''error loading env file broken.env: ''
        (Errorf ''failed to load env file: ''
           (LibError ''unexpected character in variable name'')))) \<and>
   environ (snd (Load parse_FooConfig
          (sample_loader False [''first.env'', ''broken.env'', ''second.env'']) sample_world))
     ''BAR'' = None \<and>
   new_calls sample_world (snd (Load parse_FooConfig
          (sample_loader False [''first.env'', ''broken.env'', ''second.env'']) sample_world)) =
     [CallStat ''first.env'', CallGodotenv ''first.env'',
      CallStat ''broken.env'', CallGodotenv ''broken.env'']"
proof -
  let ?l = "sample_loader False [''first.env'', ''broken.env'', ''second.env'']"
  have files: "Files ?l = [''first.env''] @ ''broken.env'' # [''second.env'']"
    by (simp add: sample_loader_def)
  have pre: "\<forall>p\<in>set [''first.env'']. passes ?l sample_world p"
    by (simp add: passes_def readable_def sample_world_def sample_disk_def)
  have f: "\<not> passes ?l sample_world ''broken.env''"
    by (simp add: passes_def readable_def missing_def sample_world_def sample_disk_def)
  have err: "fst (loadEnvFile ''broken.env'' sample_world) =
      Some (Errorf ''failed to load env file: ''
        (LibError ''unexpected character in variable name''))"
    by (simp add: loadEnvFile_def os_Stat_def godotenv_Load_def sample_world_def
        sample_disk_def)
  have bar: "environ sample_world ''BAR'' = None \<and>
      (\<forall>p\<in>set [''first.env'']. source_value sample_world p ''BAR'' = None)"
    by (simp add: source_value_def sample_world_def sample_disk_def)
  have cs: "concat (map (source_calls sample_world) ([''first.env''] @ [''broken.env''])) =
     [CallStat ''first.env'', CallGodotenv ''first.env'',
      CallStat ''broken.env'', CallGodotenv ''broken.env'']"
    by (simp add: source_calls_def missing_def sample_world_def sample_disk_def)
  from C5_first_failure_aborts [OF files pre f, of parse_FooConfig] err bar cs
  show ?thesis by auto
qed



lemma Load_files_calls:
  "\<exists>n. calls (snd (Load_files l ps w)) = calls w @ concat (map (source_calls w) (take n ps))"
proof (induction ps arbitrary: w)
  case Nil
  show ?case by simp
next
  case (Cons p ps)
  obtain e w1 where step: "loadEnvFile p w = (e, w1)" by (cases "loadEnvFile p w")
  with loadEnvFile_filesystem [of p w] have fs1: "filesystem w1 = filesystem w" by simp
  from step loadEnvFile_calls [of p w] have c1: "calls w1 = calls w @ source_calls w p"
    by simp
  from Cons.IH [of w1] obtain n where
    "calls (snd (Load_files l ps w1)) = calls w1 @ concat (map (source_calls w1) (take n ps))"
    by blast
  moreover have "source_calls w1 = source_calls w"
    by (rule ext) (rule source_calls_cong [OF fs1])
  ultimately have go: "calls (snd (Load_files l ps w1)) =
      calls w @ concat (map (source_calls w) (take (Suc n) (p # ps)))"
    using c1 by simp
  from c1 have stop: "calls w1 = calls w @ concat (map (source_calls w) (take (Suc 0) (p # ps)))"
    by simp
  from step have "Load_files l (p # ps) w = Load_files l ps w1 \<or>
      (\<exists>err. Load_files l (p # ps) w = (Some err, w1))"
    by (cases e) simp_all
  then consider "Load_files l (p # ps) w = Load_files l ps w1"
    | err where "Load_files l (p # ps) w = (Some err, w1)"
    by blast
  then show ?case
  proof cases
    case 1
    with go show ?thesis by metis
  next
    case 2
    with stop show ?thesis by (metis snd_conv)
  qed
qed

lemma Load_skip_missing:
  assumes skip: "SkipMissingFiles (Options l)" and files: "Files l = pre @ f # post"
    and miss: "missing w f"
  shows "fst (Load bind l w) = fst (Load bind (l\<lparr>Files := pre @ post\<rparr>) w) \<and>
         environ (snd (Load bind l w)) = environ (snd (Load bind (l\<lparr>Files := pre @ post\<rparr>) w))"
proof -
  let ?l' = "l\<lparr>Files := pre @ post\<rparr>"
  have same_loop: "Load_files ?l' ps v = Load_files l ps v" for ps v
    by (induction ps arbitrary: v) (simp_all split: prod.splits option.splits)
  obtain e w1 where run: "Load_files l pre w = (e, w1)" by (cases "Load_files l pre w")
  from Load_files_filesystem [of l pre w] run have fs1: "filesystem w1 = filesystem w" by simp
  from miss fs1 have "filesystem w1 f = Fails ENOENT"
    by (cases "filesystem w f") (simp_all add: missing_def)
  with skip have step: "Load_files l (f # post) w1 = Load_files l post (called (CallStat f) w1)"
    by (rule Load_files_skipped_step)
  have "fst (Load_files l post (called (CallStat f) w1)) = fst (Load_files l post w1) \<and>
        environ (snd (Load_files l post (called (CallStat f) w1))) =
          environ (snd (Load_files l post w1))"
    by (rule Load_files_calls_irrelevant) simp_all
  with run step
  have "fst (Load_files l (pre @ f # post) w) = fst (Load_files l (pre @ post) w) \<and>
        environ (snd (Load_files l (pre @ f # post) w)) =
          environ (snd (Load_files l (pre @ post) w))"
    by (cases e) (simp_all add: Load_files_append del: Load_files.simps)
  with files
  have "fst (Load_files ?l' (Files ?l') w) = fst (Load_files l (Files l) w)"
    and "environ (snd (Load_files ?l' (Files ?l') w)) = environ (snd (Load_files l (Files l) w))"
    by (simp_all add: same_loop)
  then show ?thesis
    by (simp add: Load_fst Load_environ split: option.splits)
qed

text \<open>
  C3. With \<open>SkipMissingFiles\<close> set, a source that does not exist costs the existence
  check and nothing else: the loop goes on with the next source in the same
  environment, the dotenv library is not called on it, and the result and the
  environment of \<open>Load\<close> are those of the list without that source. A source that
  the file system refuses for another reason makes \<open>Load\<close> fail, with
  \<open>SkipMissingFiles\<close> set or not.
\<close>

theorem C3_only_not_found_is_skipped:
  "(SkipMissingFiles (Options l) \<and> missing w f \<longrightarrow>
      Load_files l (f # rest) w = Load_files l rest (called (CallStat f) w)) \<and>
   (SkipMissingFiles (Options l) \<and> missing w f \<and> Files l = pre @ f # post \<longrightarrow>
      fst (Load bind l w) = fst (Load bind (l\<lparr>Files := pre @ post\<rparr>) w) \<and>
      environ (snd (Load bind l w)) = environ (snd (Load bind (l\<lparr>Files := pre @ post\<rparr>) w))) \<and>
   (missing w f \<longrightarrow> CallGodotenv f \<notin> set (new_calls w (snd (Load bind l w)))) \<and>
   (inaccessible w f \<and> f \<in> set (Files l) \<longrightarrow>
      (\<exists>err. fst (Load bind l w) = (None, Some err)))"
proof -
  have a: "Load_files l (f # rest) w = Load_files l rest (called (CallStat f) w)"
    if "SkipMissingFiles (Options l)" "missing w f"
  proof -
    from that(2) have "filesystem w f = Fails ENOENT"
      by (cases "filesystem w f") (simp_all add: missing_def)
    with that(1) show ?thesis by (rule Load_files_skipped_step)
  qed
  have c: "CallGodotenv f \<notin> set (new_calls w (snd (Load bind l w)))" if miss: "missing w f"
  proof -
    obtain n where loop: "calls (snd (Load_files l (Files l) w)) =
        calls w @ concat (map (source_calls w) (take n (Files l)))"
      using Load_files_calls by blast
    from miss have "CallGodotenv f \<notin> set (source_calls w p)" for p
      by (auto simp add: source_calls_def)
    then have "CallGodotenv f \<notin> set (concat (map (source_calls w) (take n (Files l))))"
      by simp
    with loop show ?thesis
      by (cases "fst (Load_files l (Files l) w)") (simp_all add: Load_calls new_calls_def)
  qed
  have d: "\<exists>err. fst (Load bind l w) = (None, Some err)"
    if "inaccessible w f" "f \<in> set (Files l)"
  proof -
    from that(1) have "\<not> passes l w f"
      by (cases "filesystem w f")
         (simp_all add: inaccessible_def passes_def readable_def missing_def)
    with that(2) have "fst (Load_files l (Files l) w) \<noteq> None"
      using Load_files_fails_iff [of l "Files l" w] by blast
    then show ?thesis by (auto simp add: Load_fst)
  qed
  from a c d Load_skip_missing [of l pre f post w bind] show ?thesis by blast
qed

theorem C3_only_not_found_is_skipped_witness:
  "fst (Load parse_FooConfig (sample_loader True [''absent.env'', ''second.env'']) sample_world)
     = (Some ''2'', None) \<and>
   CallGodotenv ''absent.env'' \<notin> set (new_calls sample_world
     (snd (Load parse_FooConfig (sample_loader True [''absent.env'', ''second.env''])
        sample_world))) \<and>
   (\<exists>err. fst (Load parse_FooConfig (sample_loader True [''absent.env'', ''locked.env''])
        sample_world) = (None, Some err))"
proof -
  let ?l = "sample_loader True [''absent.env'', ''second.env'']"
  let ?k = "sample_loader True [''absent.env'', ''locked.env'']"
  have skip: "SkipMissingFiles (Options ?l)" by (simp add: sample_loader_def)
  have miss: "missing sample_world ''absent.env''"
    by (simp add: missing_def sample_world_def sample_disk_def)
  have files: "Files ?l = [] @ ''absent.env'' # [''second.env'']"
    by (simp add: sample_loader_def)
  have locked: "inaccessible sample_world ''locked.env'' \<and> ''locked.env'' \<in> set (Files ?k)"
    by (simp add: inaccessible_def sample_loader_def sample_world_def sample_disk_def)
  have short: "fst (Load parse_FooConfig (?l\<lparr>Files := [] @ [''second.env'']\<rparr>) sample_world)
     = (Some ''2'', None)"
    by (simp add: Load_def loadEnvFile_def os_Stat_def godotenv_Load_def
        env_ParseWithOptions_def parse_FooConfig_def sample_loader_def sample_world_def
        sample_disk_def map_add_def)
  from C3_only_not_found_is_skipped [of ?l sample_world "''absent.env''" _
      "[]" "[''second.env'']" parse_FooConfig] skip miss files short
  have a: "fst (Load parse_FooConfig ?l sample_world) = (Some ''2'', None)"
    and b: "CallGodotenv ''absent.env'' \<notin> set (new_calls sample_world
      (snd (Load parse_FooConfig ?l sample_world)))"
    by simp_all
  from C3_only_not_found_is_skipped [of ?k sample_world "''locked.env''" _ _ _ parse_FooConfig]
    locked
  have "\<exists>err. fst (Load parse_FooConfig ?k sample_world) = (None, Some err)"
    by blast
  with a b show ?thesis by blast
qed

text \<open>
  C2, as the code has it. A loader built without options has \<open>SkipMissingFiles\<close>
  unset. With \<open>SkipMissingFiles\<close> unset, a listed source that does not exist makes
  \<open>Load\<close> return \<^verbatim>\<open>nil\<close> and an error. The error is the not-found sentinel wrapped
  with the path of that source when every source listed before it is read and parsed;
  its message names the path.
\<close>

theorem C2_missing_source_fails:
  "(files \<noteq> [] \<longrightarrow>
      (\<exists>l0. NewLoader zero files [] = (Some l0, None) \<and> \<not> SkipMissingFiles (Options l0))) \<and>
   (\<not> SkipMissingFiles (Options l) \<and> missing w f \<and> f \<in> set (Files l) \<longrightarrow>
      (\<exists>err. fst (Load bind l w) = (None, Some err))) \<and>
   (\<not> SkipMissingFiles (Options l) \<and> missing w f \<and>
    Files l = pre @ f # post \<and> (\<forall>p\<in>set pre. readable w p) \<longrightarrow>
      fst (Load bind l w) =
        (None, Some (Errorf (''error loading env file '' @ f @ '': '') ErrSourceNotFound)) \<and>
      Error (Errorf (''error loading env file '' @ f @ '': '') ErrSourceNotFound) =
        ''error loading env file '' @ f @ '': source not found'')"
proof -
  have default: "\<exists>l0. NewLoader zero files [] = (Some l0, None) \<and>
      \<not> SkipMissingFiles (Options l0)" if "files \<noteq> []"
    using that by (simp add: NewLoader_def)
  have np: "\<not> passes l w f" if "\<not> SkipMissingFiles (Options l)" "missing w f"
    using that by (cases "filesystem w f") (simp_all add: passes_def readable_def missing_def)
  have a: "\<exists>err. fst (Load bind l w) = (None, Some err)"
    if "\<not> SkipMissingFiles (Options l)" "missing w f" "f \<in> set (Files l)"
  proof -
    from np that have "fst (Load_files l (Files l) w) \<noteq> None"
      using Load_files_fails_iff [of l "Files l" w] by blast
    then show ?thesis by (auto simp add: Load_fst)
  qed
  have b: "fst (Load bind l w) =
      (None, Some (Errorf (''error loading env file '' @ f @ '': '') ErrSourceNotFound))"
    if skip: "\<not> SkipMissingFiles (Options l)" and miss: "missing w f"
      and files: "Files l = pre @ f # post" and pre: "\<forall>p\<in>set pre. readable w p"
  proof -
    from pre have "\<forall>p\<in>set pre. passes l w p" by (simp add: passes_def)
    from Load_files_first_failure [OF this np [OF skip miss], of post]
    obtain err where e: "fst (loadEnvFile f w) = Some err"
      and r: "fst (Load_files l (pre @ f # post) w) =
             Some (Errorf (''error loading env file '' @ f @ '': '') err)"
      by blast
    from miss have "filesystem w f = Fails ENOENT"
      by (cases "filesystem w f") (simp_all add: missing_def)
    with e have "err = ErrSourceNotFound" by (simp add: loadEnvFile_missing)
    with r files show ?thesis by (simp add: Load_fst)
  qed
  from default a b show ?thesis by simp
qed

theorem C2_missing_source_fails_witness:
  "(\<exists>l0. NewLoader () [''first.env'', ''absent.env'', ''second.env''] [] = (Some l0, None) \<and>
      \<not> SkipMissingFiles (Options l0)) \<and>
   fst (Load parse_FooConfig (sample_loader False [''first.env'', ''absent.env'', ''second.env''])
      sample_world) =
     (None, Some (Errorf ''error loading env file absent.env: '' ErrSourceNotFound))"
proof -
  let ?l = "sample_loader False [''first.env'', ''absent.env'', ''second.env'']"
  have ne: "[''first.env'', ''absent.env'', ''second.env''] \<noteq> []" by simp
  have skip: "\<not> SkipMissingFiles (Options ?l)" by (simp add: sample_loader_def)
  have miss: "missing sample_world ''absent.env''"
    by (simp add: missing_def sample_world_def sample_disk_def)
  have files: "Files ?l = [''first.env''] @ ''absent.env'' # [''second.env'']"
    by (simp add: sample_loader_def)
  have pre: "\<forall>p\<in>set [''first.env'']. readable sample_world p"
    by (simp add: readable_def sample_world_def sample_disk_def)
  note inst = C2_missing_source_fails [where files = "[''first.env'', ''absent.env'', ''second.env'']"
      and zero = "()" and l = ?l and w = sample_world and f = "''absent.env''"
      and bind = parse_FooConfig and pre = "[''first.env'']" and post = "[''second.env'']"]
  from inst ne
  have "\<exists>l0. NewLoader () [''first.env'', ''absent.env'', ''second.env''] [] = (Some l0, None) \<and>
      \<not> SkipMissingFiles (Options l0)"
    by blast
  moreover from inst skip miss files pre
  have "fst (Load parse_FooConfig ?l sample_world) =
     (None, Some (Errorf (''error loading env file '' @ ''absent.env'' @ '': '') ErrSourceNotFound))"
    by blast
  ultimately show ?thesis by simp
qed

text \<open>
  C2, as the claim has it, fails where a source listed before the missing one cannot
  be loaded: with the files \<open>broken.env\<close> (rejected by the parser) and \<open>absent.env\<close>
  (missing) and \<open>SkipMissingFiles\<close> unset, the error of \<open>Load\<close> is the parse error of
  \<open>broken.env\<close>; it is not the not-found sentinel wrapped with \<open>absent.env\<close>, and the
  sentinel is nowhere inside it.
\<close>

theorem C2_counterexample:
  "\<not> SkipMissingFiles (Options (sample_loader False [''broken.env'', ''absent.env''])) \<and>
   ''absent.env'' \<in> set (Files (sample_loader False [''broken.env'', ''absent.env''])) \<and>
   missing sample_world ''absent.env'' \<and>
   fst (Load parse_FooConfig (sample_loader False [''broken.env'', ''absent.env''])
      sample_world) =
     (None, Some (Errorf ''error loading env file broken.env: ''
        (Errorf ''failed to load env file: ''
           (LibError ''unexpected character in variable name'')))) \<and>
   fst (Load parse_FooConfig (sample_loader False [''broken.env'', ''absent.env''])
      sample_world) \<noteq>
     (None, Some (Errorf ''error loading env file absent.env: '' ErrSourceNotFound)) \<and>
   \<not> errors_Is (Errorf ''error loading env file broken.env: ''
        (Errorf ''failed to load env file: ''
           (LibError ''unexpected character in variable name''))) ErrSourceNotFound"
  by (simp add: Load_def loadEnvFile_def os_Stat_def godotenv_Load_def missing_def
      sample_loader_def sample_world_def sample_disk_def)



subsection \<open>Construction\<close>

lemma NewLoader_opts_shape:
  "(\<exists>l1. NewLoader_opts opts l = (Some l1, None) \<and> Files l1 = Files l) \<or>
   (\<exists>err. NewLoader_opts opts l =
      (None, Some (Errorf ''error creating loader: invalid option: '' err)))"
proof (induction opts arbitrary: l)
  case Nil
  show ?case by simp
next
  case (Cons opt opts)
  obtain e options where step: "opt (Options l) = (e, options)" by (cases "opt (Options l)")
  show ?case
  proof (cases e)
    case None
    with step Cons.IH [of "l\<lparr>Options := options\<rparr>"] show ?thesis by simp
  next
    case (Some err)
    with step show ?thesis by simp
  qed
qed

lemma NewLoader_opts_append:
  "NewLoader_opts (xs @ ys) l =
     (case NewLoader_opts xs l of
        (Some l1, e) \<Rightarrow> NewLoader_opts ys l1
      | (None, e) \<Rightarrow> (None, e))"
  by (induction xs arbitrary: l) (auto split: prod.splits option.splits)

lemma NewLoader_opts_succeed:
  "\<forall>opt\<in>set opts. \<forall>options. fst (opt options) = None \<Longrightarrow>
   \<exists>l1. NewLoader_opts opts l = (Some l1, None) \<and> Files l1 = Files l"
proof (induction opts arbitrary: l)
  case Nil
  show ?case by simp
next
  case (Cons opt opts)
  obtain e options where step: "opt (Options l) = (e, options)" by (cases "opt (Options l)")
  from Cons.prems have "fst (opt (Options l)) = None" by simp
  with step have "e = None" by simp
  moreover from Cons.prems
  have "\<exists>l1. NewLoader_opts opts (l\<lparr>Options := options\<rparr>) = (Some l1, None) \<and>
      Files l1 = Files (l\<lparr>Options := options\<rparr>)"
    by (intro Cons.IH) simp
  ultimately show ?case using step by simp
qed

lemma NewLoader_append:
  assumes "NewLoader zero files pre = (Some l1, None)"
  shows "NewLoader zero files (pre @ opts) = NewLoader_opts opts l1" and "files \<noteq> []"
proof -
  from assms show ne: "files \<noteq> []" by (auto simp add: NewLoader_def)
  with assms show "NewLoader zero files (pre @ opts) = NewLoader_opts opts l1"
    by (simp add: NewLoader_def NewLoader_opts_append)
qed

text \<open>
  C4, as the code has it. With no files \<open>NewLoader\<close> returns \<^verbatim>\<open>nil\<close> and
  \<open>ErrEnvFilesNotSpecified\<close>, whatever the options. With files it returns a loader
  that holds them when no option returns an error; in any case it returns either such
  a loader or \<^verbatim>\<open>nil\<close> and the wrapped error of an option. \<open>NewLoader\<close> has no world
  among its arguments or results: it makes no call to the outside.
\<close>

theorem C4_empty_sources_rejected:
  "NewLoader zero [] opts = (None, Some ErrEnvFilesNotSpecified) \<and>
   (files \<noteq> [] \<and> (\<forall>opt\<in>set opts. \<forall>options. fst (opt options) = None) \<longrightarrow>
      (\<exists>l. NewLoader zero files opts = (Some l, None) \<and> Files l = files)) \<and>
   (files \<noteq> [] \<longrightarrow>
      (\<exists>l. NewLoader zero files opts = (Some l, None) \<and> Files l = files) \<or>
      (\<exists>err. NewLoader zero files opts =
         (None, Some (Errorf ''error creating loader: invalid option: '' err))))"
proof -
  let ?init = "\<lparr>Files = files, Options = \<lparr>SkipMissingFiles = False, EnvOptions = zero\<rparr>\<rparr>"
  have "NewLoader zero [] opts = (None, Some ErrEnvFilesNotSpecified)"
    by (simp add: NewLoader_def)
  moreover have "\<exists>l. NewLoader zero files opts = (Some l, None) \<and> Files l = files"
    if "files \<noteq> []" "\<forall>opt\<in>set opts. \<forall>options. fst (opt options) = None"
    using NewLoader_opts_succeed [OF that(2), of ?init] that(1)
    by (simp add: NewLoader_def)
  moreover have "(\<exists>l. NewLoader zero files opts = (Some l, None) \<and> Files l = files) \<or>
      (\<exists>err. NewLoader zero files opts =
         (None, Some (Errorf ''error creating loader: invalid option: '' err)))"
    if "files \<noteq> []"
    using NewLoader_opts_shape [of opts ?init] that
    by (simp add: NewLoader_def)
  ultimately show ?thesis by blast
qed

theorem C4_empty_sources_rejected_witness:
  "NewLoader () [] [WithSkipMissingFiles, rejectingOption] =
     (None, Some ErrEnvFilesNotSpecified) \<and>
   (\<exists>l. NewLoader () [''.env'', ''.env.local''] [WithSkipMissingFiles, WithEnvOptions ()] =
      (Some l, None) \<and> Files l = [''.env'', ''.env.local''])"
proof -
  have "[''.env'', ''.env.local''] \<noteq> [] \<and>
      (\<forall>opt\<in>set [WithSkipMissingFiles, WithEnvOptions ()].
         \<forall>options :: unit Options. fst (opt options) = None)"
    by (simp add: WithSkipMissingFiles_def WithEnvOptions_def)
  with C4_empty_sources_rejected [where zero = "()"
      and opts = "[WithSkipMissingFiles, rejectingOption]" and files = "[''.env'', ''.env.local'']"]
    C4_empty_sources_rejected [where zero = "()"
      and opts = "[WithSkipMissingFiles, WithEnvOptions ()]" and files = "[''.env'', ''.env.local'']"]
  show ?thesis by blast
qed

text \<open>
  C4, as the claim has it, fails for a list of files that is not empty when an option
  returns an error: no loader is returned.
\<close>

theorem C4_counterexample:
  "[''.env''] \<noteq> [] \<and>
   NewLoader () [''.env''] [rejectingOption] =
     (None, Some (Errorf ''error creating loader: invalid option: '' (LibError ''unsupported'')))"
  by (simp add: NewLoader_def rejectingOption_def)

text \<open>
  C8. The options are applied one after the other in the order given: appending an
  option to a list that builds the loader \<open>l\<close> applies it to the options of \<open>l\<close>, the
  record that the earlier options have made, and with no option the record is the zero
  value. So the last \<open>WithEnvOptions\<close> decides: appended to any list that builds a
  loader it replaces \<open>EnvOptions\<close> and nothing else, and of two in a row the second
  one's value is stored.
\<close>

theorem C8_options_in_order_last_wins:
  "(files \<noteq> [] \<longrightarrow>
      NewLoader zero files [] =
        (Some \<lparr>Files = files, Options = \<lparr>SkipMissingFiles = False, EnvOptions = zero\<rparr>\<rparr>, None)) \<and>
   (NewLoader zero files opts = (Some l, None) \<longrightarrow>
      NewLoader zero files (opts @ [opt]) =
        (case opt (Options l) of
           (Some err, options) \<Rightarrow>
             (None, Some (Errorf ''error creating loader: invalid option: '' err))
         | (None, options) \<Rightarrow> (Some (l\<lparr>Options := options\<rparr>), None))) \<and>
   (NewLoader zero files opts = (Some l, None) \<longrightarrow>
      NewLoader zero files (opts @ [WithEnvOptions b]) =
        (Some (l\<lparr>Options := (Options l)\<lparr>EnvOptions := b\<rparr>\<rparr>), None)) \<and>
   (files \<noteq> [] \<longrightarrow>
      NewLoader zero files [WithEnvOptions a, WithEnvOptions b] =
        (Some \<lparr>Files = files, Options = \<lparr>SkipMissingFiles = False, EnvOptions = b\<rparr>\<rparr>, None))"
proof -
  have snoc: "NewLoader zero files (opts @ [opt]) =
        (case opt (Options l) of
           (Some err, options) \<Rightarrow>
             (None, Some (Errorf ''error creating loader: invalid option: '' err))
         | (None, options) \<Rightarrow> (Some (l\<lparr>Options := options\<rparr>), None))"
    if "NewLoader zero files opts = (Some l, None)" for opt
    using NewLoader_append(1) [OF that, of "[opt]"]
    by (simp split: prod.splits option.splits)
  have "NewLoader zero files (opts @ [WithEnvOptions b]) =
        (Some (l\<lparr>Options := (Options l)\<lparr>EnvOptions := b\<rparr>\<rparr>), None)"
    if "NewLoader zero files opts = (Some l, None)"
    using snoc [OF that, of "WithEnvOptions b"] by (simp add: WithEnvOptions_def)
  moreover have "NewLoader zero files [WithEnvOptions a, WithEnvOptions b] =
        (Some \<lparr>Files = files, Options = \<lparr>SkipMissingFiles = False, EnvOptions = b\<rparr>\<rparr>, None)"
    if "files \<noteq> []"
    using that by (simp add: NewLoader_def WithEnvOptions_def)
  moreover have "NewLoader zero files [] =
        (Some \<lparr>Files = files, Options = \<lparr>SkipMissingFiles = False, EnvOptions = zero\<rparr>\<rparr>, None)"
    if "files \<noteq> []"
    using that by (simp add: NewLoader_def)
  ultimately show ?thesis using snoc by blast
qed

theorem C8_options_in_order_last_wins_witness:
  "NewLoader ''zero'' [''.env''] [WithEnvOptions ''one'', WithSkipMissingFiles, WithEnvOptions ''two''] =
     (Some \<lparr>Files = [''.env''], Options = \<lparr>SkipMissingFiles = True, EnvOptions = ''two''\<rparr>\<rparr>, None) \<and>
   NewLoader ''zero'' [''.env''] [WithEnvOptions ''one'', WithEnvOptions ''two''] =
     (Some \<lparr>Files = [''.env''], Options = \<lparr>SkipMissingFiles = False, EnvOptions = ''two''\<rparr>\<rparr>, None)"
proof -
  let ?l = "\<lparr>Files = [''.env''], Options = \<lparr>SkipMissingFiles = True, EnvOptions = ''one''\<rparr>\<rparr>"
  have first: "NewLoader ''zero'' [''.env''] [WithEnvOptions ''one'', WithSkipMissingFiles] =
     (Some ?l, None)"
    by (simp add: NewLoader_def WithEnvOptions_def WithSkipMissingFiles_def)
  have ne: "[''.env''] \<noteq> []" by simp
  note inst = C8_options_in_order_last_wins [where files = "[''.env'']" and zero = "''zero''"
      and opts = "[WithEnvOptions ''one'', WithSkipMissingFiles]" and l = ?l
      and opt = "WithEnvOptions ''two''" and a = "''one''" and b = "''two''"]
  from inst first
  have "NewLoader ''zero'' [''.env'']
      ([WithEnvOptions ''one'', WithSkipMissingFiles] @ [WithEnvOptions ''two'']) =
      (Some (?l\<lparr>Options := (Options ?l)\<lparr>EnvOptions := ''two''\<rparr>\<rparr>), None)"
    by blast
  moreover from inst ne
  have "NewLoader ''zero'' [''.env''] [WithEnvOptions ''one'', WithEnvOptions ''two''] =
     (Some \<lparr>Files = [''.env''], Options = \<lparr>SkipMissingFiles = False, EnvOptions = ''two''\<rparr>\<rparr>, None)"
    by blast
  ultimately show ?thesis by simp
qed

text \<open>
  C10. When the options before \<open>opt\<close> build a loader (so the list of files is not
  empty) and \<open>opt\<close> returns an error on the options of that loader, \<open>NewLoader\<close>
  returns \<^verbatim>\<open>nil\<close> and that error wrapped, whatever options follow \<open>opt\<close>: what the
  earlier options have set is lost with the loader.
\<close>

theorem C10_failing_option_aborts:
  assumes "NewLoader zero files pre = (Some l1, None)" and "fst (opt (Options l1)) = Some err"
  shows "files \<noteq> [] \<and>
     NewLoader zero files (pre @ opt # post) =
       (None, Some (Errorf ''error creating loader: invalid option: '' err))"
proof -
  from assms(2) have "NewLoader_opts (opt # post) l1 =
      (None, Some (Errorf ''error creating loader: invalid option: '' err))"
    by (cases "opt (Options l1)") simp
  with NewLoader_append(1) [OF assms(1), of "opt # post"] NewLoader_append(2) [OF assms(1)]
  show ?thesis by simp
qed

theorem C10_failing_option_aborts_witness:
  "NewLoader () [''.env''] ([WithSkipMissingFiles] @ rejectingOption # [WithEnvOptions ()]) =
     (None, Some (Errorf ''error creating loader: invalid option: '' (LibError ''unsupported'')))"
proof -
  have pre: "NewLoader () [''.env''] [WithSkipMissingFiles] =
     (Some \<lparr>Files = [''.env''], Options = \<lparr>SkipMissingFiles = True, EnvOptions = ()\<rparr>\<rparr>, None)"
    by (simp add: NewLoader_def WithSkipMissingFiles_def)
  have rej: "fst (rejectingOption
      (Options \<lparr>Files = [''.env''], Options = \<lparr>SkipMissingFiles = True, EnvOptions = ()\<rparr>\<rparr>)) =
      Some (LibError ''unsupported'')"
    by (simp add: rejectingOption_def)
  from C10_failing_option_aborts [where zero = "()" and files = "[''.env'']"
      and pre = "[WithSkipMissingFiles]" and opt = rejectingOption
      and err = "LibError ''unsupported''" and post = "[WithEnvOptions ()]", OF pre rej]
  show ?thesis by simp
qed


subsection \<open>The earlier revisions\<close>

text \<open>
  In the earlier revisions no option can fail: \<open>NewLoader\<close> refuses the empty list of
  files and returns a loader for any other.
\<close>

lemma NewLoader_v1_cases:
  "NewLoader_v1 [] opts = (None, Some ErrEnvFilesNotSpecified) \<and>
   (files \<noteq> [] \<longrightarrow> (\<exists>l. NewLoader_v1 files opts = (Some l, None)))"
  by (simp add: NewLoader_v1_def)

lemma NewLoader_v1_skip:
  "files \<noteq> [] \<Longrightarrow>
   NewLoader_v1 files [] = (Some \<lparr>envFiles = files, skipMissingFiles = False\<rparr>, None) \<and>
   NewLoader_v1 files [WithSkipMissingFiles_v1] =
     (Some \<lparr>envFiles = files, skipMissingFiles = True\<rparr>, None)"
  by (simp add: NewLoader_v1_def WithSkipMissingFiles_v1_def)

text \<open>
  \<open>Load\<close> of \<^verbatim>\<open>env.go\<close> is \<open>Load\<close> of the newest revision on the corresponding
  loader, with a struct parser that does not look at its options: what is proved of
  the one holds of the other.
\<close>

lemma Load_files_env_go_eq: "Load_files_env_go l ps w = Load_files (as_Loader l) ps w"
  by (induction ps arbitrary: w)
     (simp_all add: as_Loader_def split: prod.splits option.splits)

lemma Load_env_go_eq: "Load_env_go bind l w = Load (\<lambda>opts. bind) (as_Loader l) w"
proof -
  have files: "Files (as_Loader l) = envFiles l" by (simp add: as_Loader_def)
  have parse: "env_ParseWithOptions (\<lambda>opts. bind) x v = env_Parse bind v" for x v
    by (simp add: env_Parse_def env_ParseWithOptions_def)
  show ?thesis
    unfolding Load_env_go_def Load_def files parse Load_files_env_go_eq
    by (rule refl)
qed

text \<open>
  \<open>Load\<close> of \<^verbatim>\<open>part_000\<close> goes through the same worlds as \<open>Load\<close> of \<^verbatim>\<open>env.go\<close>
  and ends the loop at the same source; the errors differ: a missing source gives the
  error of the existence check, wrapped with the path.
\<close>

lemma Load_files_part_000_sim:
  "snd (Load_files_part_000 l ps w) = snd (Load_files_env_go l ps w) \<and>
   (fst (Load_files_part_000 l ps w) = None \<longleftrightarrow> fst (Load_files_env_go l ps w) = None)"
proof (induction ps arbitrary: w)
  case Nil
  show ?case by simp
next
  case (Cons p ps)
  show ?case
  proof (cases w p rule: loadEnvFile_cases)
    case missing
    with Cons.IH [of "called (CallStat p) w"] show ?thesis
      by (simp add: loadEnvFile_missing os_Stat_def)
  next
    case (fails n)
    then show ?thesis
      by (simp add: loadEnvFile_Fails os_Stat_def godotenv_Load_def)
  next
    case (unreadable n)
    then show ?thesis
      by (simp add: loadEnvFile_Unreadable os_Stat_def godotenv_Load_def)
  next
    case (malformed m)
    then show ?thesis
      by (simp add: loadEnvFile_Malformed os_Stat_def godotenv_Load_def)
  next
    case (parsed kv)
    with Cons.IH
      [of "(called (CallGodotenv p) (called (CallStat p) w))\<lparr>environ := kv ++ environ w\<rparr>"]
    show ?thesis
      by (simp add: loadEnvFile_Parsed os_Stat_def godotenv_Load_def)
  qed
qed

lemma Load_part_000_sim:
  "snd (Load_part_000 bind l w) = snd (Load_env_go bind l w) \<and>
   fst (fst (Load_part_000 bind l w)) = fst (fst (Load_env_go bind l w)) \<and>
   (snd (fst (Load_part_000 bind l w)) = None \<longleftrightarrow> snd (fst (Load_env_go bind l w)) = None)"
proof -
  obtain e0 w0 where r0: "Load_files_part_000 l (envFiles l) w = (e0, w0)"
    by (cases "Load_files_part_000 l (envFiles l) w")
  obtain e1 w1 where r1: "Load_files_env_go l (envFiles l) w = (e1, w1)"
    by (cases "Load_files_env_go l (envFiles l) w")
  from Load_files_part_000_sim [of l "envFiles l" w] r0 r1
  have "w0 = w1" and "e0 = None \<longleftrightarrow> e1 = None" by simp_all
  with r0 r1 show ?thesis
    by (cases e0; cases e1)
       (simp_all add: Load_part_000_def Load_env_go_def env_Parse_def
          split: prod.splits option.splits)
qed

lemma Load_part_000_missing:
  "\<not> skipMissingFiles l \<Longrightarrow> envFiles l = f # post \<Longrightarrow> missing w f \<Longrightarrow>
   fst (Load_part_000 bind l w) =
     (None, Some (Errorf (''error loading env file '' @ f @ '': '')
        (PathError ''stat'' f ENOENT)))"
  by (cases "filesystem w f")
     (simp_all add: Load_part_000_def os_Stat_def missing_def)

end
